theory Spec2Isabelle
  imports
    Complex_Main
    "HOL-Library.AList"
    "HOL-Library.Char_ord"
    "HOL-Library.List_Lexorder"
    "HOL-Library.Multiset"
    "HOL-Library.Sublist"
begin

section \<open>Values\<close>

text \<open>
  The alert processor works on what \<^verbatim>\<open>json.loads\<close> returns: \<^verbatim>\<open>None\<close>, booleans,
  integers, floats, strings, lists and dicts with string keys. A dict is the list of its
  items in iteration order; its keys are pairwise different (\<open>wf_json\<close> below).
  Strings are ordered lexicographically by character code, as Python orders them.
  An \<^verbatim>\<open>OrderedDict\<close> is a dict for \<^verbatim>\<open>isinstance(value, dict)\<close>, for subscripting and
  for \<^verbatim>\<open>in\<close>, so both are \<open>JDict\<close>. Finite floats are rationals; NaN and the
  infinities are not represented.
\<close>

datatype json =
    JNull
  | JBool bool
  | JInt int
  | JFloat rat
  | JStr string
  | JList "json list"
  | JDict "(string \<times> json) list"

text \<open>
  The exceptions the processor can meet. \<open>NonExceptionExit\<close> stands for the exceptions
  that are not instances of \<^verbatim>\<open>Exception\<close> (\<^verbatim>\<open>SystemExit\<close>, \<^verbatim>\<open>KeyboardInterrupt\<close>,
  \<^verbatim>\<open>GeneratorExit\<close>), which \<^verbatim>\<open>except Exception\<close> does not catch.
\<close>

datatype py_error =
    IOError | ValueError | KeyError | TypeError | AttributeError | IndexError
  | NonExceptionExit

lemma size_dict_entry:
  "(k, JDict d) \<in> set xs \<Longrightarrow>
     size_list (size_prod (\<lambda>_. 0) size) d < size_list (size_prod (\<lambda>_. 0) size) xs"
  by (induction xs) auto

lemma size_dict_value:
  "(k, v) \<in> set xs \<Longrightarrow> size v < Suc (size_list (size_prod (\<lambda>_. 0) size) xs)"
  by (induction xs) auto

lemma size_list_elem:
  "x \<in> set xs \<Longrightarrow> size (x :: json) < Suc (size_list size xs)"
  by (induction xs) auto

text \<open>Every dict of a value, at any depth, has pairwise different keys.\<close>

function wf_json :: "json \<Rightarrow> bool" where
  "wf_json (JDict kvs) = (distinct (map fst kvs) \<and> (\<forall>(k, v) \<in> set kvs. wf_json v))"
| "wf_json (JList xs) = (\<forall>x \<in> set xs. wf_json x)"
| "wf_json JNull = True"
| "wf_json (JBool b) = True"
| "wf_json (JInt i) = True"
| "wf_json (JFloat r) = True"
| "wf_json (JStr s) = True"
  by pat_completeness auto
termination
  by (relation "measure size") (auto simp: size_dict_value size_list_elem)

section \<open>\<^verbatim>\<open>_sort_dict\<close>\<close>

text \<open>
  \<^verbatim>\<open>
  def _sort_dict(unordered_dict):
      result = OrderedDict()
      for key, value in sorted(unordered_dict.items(), key=lambda t: t[0]):
          if isinstance(value, dict):
              result[key] = _sort_dict(value)
              continue
          result[key] = value
      return result
  \<close>
  \<^verbatim>\<open>sorted\<close> is a stable sort on the key, as \<open>sort_key fst\<close> is; \<^verbatim>\<open>result[key] = v\<close>
  on an \<^verbatim>\<open>OrderedDict\<close> replaces the value of a key that is there and appends a new key,
  as \<open>AList.update\<close> does. The argument is the dict's item list.
\<close>

function sort_dict :: "(string \<times> json) list \<Rightarrow> (string \<times> json) list" where
  "sort_dict unordered_dict =
     fold (\<lambda>(key, val) result.
             (case val of
                JDict d \<Rightarrow> AList.update key (JDict (sort_dict d)) result
              | _ \<Rightarrow> AList.update key val result))
          (sort_key fst unordered_dict) []"
  by pat_completeness auto
termination
  by (relation "measure (size_list (size_prod (\<lambda>_. 0) size))")
     (auto simp: size_dict_entry)

declare sort_dict.simps [simp del]

text \<open>What one iteration stores under the key.\<close>

definition sort_value :: "json \<Rightarrow> json" where
  "sort_value v = (case v of JDict d \<Rightarrow> JDict (sort_dict d) | _ \<Rightarrow> v)"

text \<open>Calling \<^verbatim>\<open>_sort_dict\<close> on a value that has no \<^verbatim>\<open>items\<close> raises.\<close>

definition sort_dict_call :: "json \<Rightarrow> py_error + json" where
  "sort_dict_call v = (case v of JDict d \<Rightarrow> Inr (JDict (sort_dict d)) | _ \<Rightarrow> Inl AttributeError)"

subsection \<open>Properties stated about the canonical form\<close>

text \<open>Every dict anywhere in the value, also inside lists, iterates its keys in sorted order.\<close>

function all_dicts_sorted :: "json \<Rightarrow> bool" where
  "all_dicts_sorted (JDict kvs) =
     (sorted (map fst kvs) \<and> (\<forall>(k, v) \<in> set kvs. all_dicts_sorted v))"
| "all_dicts_sorted (JList xs) = (\<forall>x \<in> set xs. all_dicts_sorted x)"
| "all_dicts_sorted JNull = True"
| "all_dicts_sorted (JBool b) = True"
| "all_dicts_sorted (JInt i) = True"
| "all_dicts_sorted (JFloat r) = True"
| "all_dicts_sorted (JStr s) = True"
  by pat_completeness auto
termination
  by (relation "measure size") (auto simp: size_dict_value size_list_elem)

text \<open>
  The dicts reached from the root through dict values only (never through a list) iterate
  their keys in sorted order.
\<close>

function dict_paths_sorted :: "json \<Rightarrow> bool" where
  "dict_paths_sorted (JDict kvs) =
     (sorted (map fst kvs) \<and> (\<forall>(k, v) \<in> set kvs. dict_paths_sorted v))"
| "dict_paths_sorted (JList xs) = True"
| "dict_paths_sorted JNull = True"
| "dict_paths_sorted (JBool b) = True"
| "dict_paths_sorted (JInt i) = True"
| "dict_paths_sorted (JFloat r) = True"
| "dict_paths_sorted (JStr s) = True"
  by pat_completeness auto
termination
  by (relation "measure size") (auto simp: size_dict_value)

text \<open>Paths into a value: a dict key or a list index at each step, as subscripting does.\<close>

datatype step = Key string | Index nat

fun lookup_path :: "json \<Rightarrow> step list \<Rightarrow> json option" where
  "lookup_path v [] = Some v"
| "lookup_path (JDict kvs) (Key k # p) =
     (case map_of kvs k of None \<Rightarrow> None | Some v \<Rightarrow> lookup_path v p)"
| "lookup_path (JList xs) (Index i # p) =
     (if i < length xs then lookup_path (xs ! i) p else None)"
| "lookup_path v (s # p) = None"

text \<open>
  What is at a node, without the order of a dict's keys: the key set of a dict, the length
  of a list, a scalar itself.
\<close>

datatype node = NDict "string set" | NList nat | NScalar json

definition node_of :: "json \<Rightarrow> node" where
  "node_of v = (case v of
      JDict kvs \<Rightarrow> NDict (set (map fst kvs))
    | JList xs \<Rightarrow> NList (length xs)
    | _ \<Rightarrow> NScalar v)"

section \<open>Python operations the alert processor uses\<close>

text \<open>Truth value of a value, as \<^verbatim>\<open>if not x\<close> tests it.\<close>

fun truthy :: "json \<Rightarrow> bool" where
  "truthy JNull = False"
| "truthy (JBool b) = b"
| "truthy (JInt i) = (i \<noteq> 0)"
| "truthy (JFloat r) = (r \<noteq> 0)"
| "truthy (JStr s) = (s \<noteq> [])"
| "truthy (JList xs) = (xs \<noteq> [])"
| "truthy (JDict kvs) = (kvs \<noteq> [])"

text \<open>\<^verbatim>\<open>x.get(k, default)\<close>: only a dict has \<^verbatim>\<open>get\<close>.\<close>

definition dict_get :: "json \<Rightarrow> string \<Rightarrow> json \<Rightarrow> py_error + json" where
  "dict_get x k dflt =
     (case x of
        JDict kvs \<Rightarrow> Inr (case map_of kvs k of None \<Rightarrow> dflt | Some v \<Rightarrow> v)
      | _ \<Rightarrow> Inl AttributeError)"

text \<open>\<^verbatim>\<open>x[k]\<close> with a string \<open>k\<close>: a missing key of a dict is a KeyError, any other
  value cannot be subscripted with a string.\<close>

definition getitem :: "json \<Rightarrow> string \<Rightarrow> py_error + json" where
  "getitem x k =
     (case x of
        JDict kvs \<Rightarrow> (case map_of kvs k of None \<Rightarrow> Inl KeyError | Some v \<Rightarrow> Inr v)
      | _ \<Rightarrow> Inl TypeError)"

text \<open>\<^verbatim>\<open>x[k1][k2]\<close>.\<close>

definition getitem2 :: "json \<Rightarrow> string \<Rightarrow> string \<Rightarrow> py_error + json" where
  "getitem2 x k1 k2 = (case getitem x k1 of Inl e \<Rightarrow> Inl e | Inr y \<Rightarrow> getitem y k2)"

text \<open>\<^verbatim>\<open>k in x\<close> with a string \<open>k\<close>: a key of a dict, an element of a list, a substring
  of a string; other values are not containers.\<close>

definition contains :: "string \<Rightarrow> json \<Rightarrow> py_error + bool" where
  "contains k x =
     (case x of
        JDict kvs \<Rightarrow> Inr (k \<in> set (map fst kvs))
      | JList xs \<Rightarrow> Inr (JStr k \<in> set xs)
      | JStr s \<Rightarrow> Inr (sublist k s)
      | _ \<Rightarrow> Inl TypeError)"

definition py_len :: "json \<Rightarrow> py_error + nat" where
  "py_len x =
     (case x of
        JDict kvs \<Rightarrow> Inr (length kvs)
      | JList xs \<Rightarrow> Inr (length xs)
      | JStr s \<Rightarrow> Inr (length s)
      | _ \<Rightarrow> Inl TypeError)"

text \<open>The elements a \<^verbatim>\<open>for\<close> loop or \<^verbatim>\<open>set(x)\<close> takes from a value.\<close>

definition py_iter :: "json \<Rightarrow> py_error + json list" where
  "py_iter x =
     (case x of
        JDict kvs \<Rightarrow> Inr (map (\<lambda>(k, v). JStr k) kvs)
      | JList xs \<Rightarrow> Inr xs
      | JStr s \<Rightarrow> Inr (map (\<lambda>c. JStr [c]) s)
      | _ \<Rightarrow> Inl TypeError)"

text \<open>\<^verbatim>\<open>s.split(sep)\<close> with a one-character separator: one part more than separators.\<close>

fun split_on :: "char \<Rightarrow> string \<Rightarrow> string list" where
  "split_on sep [] = [[]]"
| "split_on sep (c # cs) =
     (if c = sep then [] # split_on sep cs
      else (case split_on sep cs of
              [] \<Rightarrow> [[c]]
            | p # ps \<Rightarrow> (c # p) # ps))"

subsection \<open>\<^verbatim>\<open>set(outputs)\<close>\<close>

text \<open>
  A set holds hashable values, and holds one of several equal values. \<^verbatim>\<open>True == 1 == 1.0\<close>
  in Python; a string equals only the same string, \<^verbatim>\<open>None\<close> only itself.
\<close>

fun hashable :: "json \<Rightarrow> bool" where
  "hashable (JList xs) = False"
| "hashable (JDict kvs) = False"
| "hashable v = True"

fun num_val :: "json \<Rightarrow> rat option" where
  "num_val (JBool b) = Some (if b then 1 else 0)"
| "num_val (JInt i) = Some (of_int i)"
| "num_val (JFloat r) = Some r"
| "num_val v = None"

definition py_eq :: "json \<Rightarrow> json \<Rightarrow> bool" where
  "py_eq x y =
     (case num_val x of
        Some a \<Rightarrow> (case num_val y of Some b \<Rightarrow> a = b | None \<Rightarrow> False)
      | None \<Rightarrow> x = y)"

text \<open>The first of each class of equal values stays, as when the values are added one by one.\<close>

fun py_dedup :: "json list \<Rightarrow> json list" where
  "py_dedup [] = []"
| "py_dedup (x # xs) = x # py_dedup (filter (\<lambda>y. \<not> py_eq x y) xs)"

text \<open>
  The order in which a set is iterated is not specified by the language: it is the
  parameter \<open>order\<close>, a permutation of its argument.
\<close>

definition py_set :: "(json list \<Rightarrow> json list) \<Rightarrow> json \<Rightarrow> py_error + json list" where
  "py_set order x =
     (case py_iter x of
        Inl e \<Rightarrow> Inl e
      | Inr xs \<Rightarrow> if list_all hashable xs then Inr (order (py_dedup xs)) else Inl TypeError)"


section \<open>The world outside \<^verbatim>\<open>main.py\<close>\<close>

text \<open>
  What a dispatcher's \<^verbatim>\<open>dispatch(descriptor, rule_name, alert)\<close> does: it returns whether
  the alert was sent, it raises an instance of \<^verbatim>\<open>Exception\<close> (\<open>Raised\<close>), or it raises
  an exception that is not one, such as \<^verbatim>\<open>SystemExit\<close> (\<open>RaisedNonException\<close>).
\<close>

datatype dispatch_outcome = Returned bool | Raised | RaisedNonException

type_synonym dispatcher = "string \<Rightarrow> json \<Rightarrow> json \<Rightarrow> dispatch_outcome"

text \<open>
  The file system, the JSON parser, the dispatcher registry
  \<^verbatim>\<open>stream_alert.alert_processor.outputs.get_output_dispatcher\<close> (imported by
  \<^verbatim>\<open>main.py\<close>, defined in another module) and the iteration order of sets are parameters
  of the model, so that what is proved holds for each of them:
  \<^item> \<open>open_file path\<close> is the content of the file, \<open>None\<close> when \<^verbatim>\<open>open\<close> raises;
  \<^item> \<open>json_loads s\<close> is the parsed value, \<open>None\<close> when the parser raises ValueError;
  \<^item> \<open>get_output_dispatcher service region function_name config\<close> is the dispatcher of
    the service, \<open>None\<close> when there is none;
  \<^item> \<open>set_order\<close> lists the elements of a set in the order of its iteration.
\<close>

record env =
  open_file :: "string \<Rightarrow> string option"
  json_loads :: "string \<Rightarrow> json option"
  get_output_dispatcher :: "string \<Rightarrow> string \<Rightarrow> string \<Rightarrow> json \<Rightarrow> dispatcher option"
  set_order :: "json list \<Rightarrow> json list"

text \<open>The \<^verbatim>\<open>context\<close> argument of the handler.\<close>

record lambda_context =
  invoked_function_arn :: string
  function_name :: string

text \<open>
  What the processor does to the outside, in the order it does it: the lines it logs and
  the dispatch calls it makes (service, descriptor, rule name, alert, and what the call did).
\<close>

datatype effect =
    LogInfoRunning nat
  | LogErrorConfig
  | LogErrorDecode
  | LogErrorMalformedSns json
  | LogDebugMessage json
  | LogErrorImproperOutput string
  | LogErrorOutputMissing string
  | LogDebugSending string string
  | DispatchCall string string json json dispatch_outcome
  | LogExceptionDispatch string string json

text \<open>A computation raises or returns, and leaves its effects in both cases.\<close>

type_synonym 'a io = "(py_error + 'a) \<times> effect list"

section \<open>\<^verbatim>\<open>_load_output_config\<close>\<close>

text \<open>
  \<^verbatim>\<open>
  with open(config_path) as outputs:
      try:
          config = json.load(outputs)
      except ValueError:
          LOGGER.error('The conf/outputs.json file could not be loaded into json')
          return
  return config
  \<close>
  \<^verbatim>\<open>open\<close> is outside the \<^verbatim>\<open>try\<close>: its IOError is not caught. The bare \<^verbatim>\<open>return\<close>
  returns \<^verbatim>\<open>None\<close>, which is also what the JSON document \<^verbatim>\<open>null\<close> parses to.
\<close>

definition load_output_config :: "env \<Rightarrow> string \<Rightarrow> json io" where
  "load_output_config env config_path =
     (case open_file env config_path of
        None \<Rightarrow> (Inl IOError, [])
      | Some content \<Rightarrow>
          (case json_loads env content of
             None \<Rightarrow> (Inr JNull, [LogErrorConfig])
           | Some config \<Rightarrow> (Inr config, [])))"

section \<open>\<^verbatim>\<open>run\<close>\<close>

text \<open>
  One iteration of \<^verbatim>\<open>for output in set(outputs)\<close>: the results it yields (none after a
  \<^verbatim>\<open>continue\<close>) and its effects. Unpacking \<^verbatim>\<open>output.split(':')\<close> into two names raises
  ValueError unless there are exactly two parts; a value that is not a string has no
  \<^verbatim>\<open>split\<close>. \<^verbatim>\<open>except Exception\<close> catches what \<^verbatim>\<open>dispatch\<close> raises when it is an instance
  of \<^verbatim>\<open>Exception\<close>, and \<^verbatim>\<open>sent\<close> stays \<open>False\<close>; any other exception leaves the loop.
\<close>

definition run_output ::
  "env \<Rightarrow> string \<Rightarrow> string \<Rightarrow> json \<Rightarrow> json \<Rightarrow> json \<Rightarrow> json \<Rightarrow> (bool \<times> string) list io" where
  "run_output env region fname config rule_name alert output =
     (case output of
        JStr token \<Rightarrow>
          (case split_on CHR '':'' token of
             [service, descriptor] \<Rightarrow>
               (case contains service config of
                  Inl e \<Rightarrow> (Inl e, [])
                | Inr False \<Rightarrow> (Inr [], [LogErrorOutputMissing token])
                | Inr True \<Rightarrow>
                    (case getitem config service of
                       Inl e \<Rightarrow> (Inl e, [])
                     | Inr descriptors \<Rightarrow>
                         (case contains descriptor descriptors of
                            Inl e \<Rightarrow> (Inl e, [])
                          | Inr False \<Rightarrow> (Inr [], [LogErrorOutputMissing token])
                          | Inr True \<Rightarrow>
                              (case get_output_dispatcher env service region fname config of
                                 None \<Rightarrow> (Inr [], [])
                               | Some output_dispatcher \<Rightarrow>
                                   (case output_dispatcher descriptor rule_name alert of
                                      Returned sent \<Rightarrow>
                                        (Inr [(sent, token)],
                                         [LogDebugSending service descriptor,
                                          DispatchCall service descriptor rule_name alert
                                            (Returned sent)])
                                    | Raised \<Rightarrow>
                                        (Inr [(False, token)],
                                         [LogDebugSending service descriptor,
                                          DispatchCall service descriptor rule_name alert Raised,
                                          LogExceptionDispatch service descriptor alert])
                                    | RaisedNonException \<Rightarrow>
                                        (Inl NonExceptionExit,
                                         [LogDebugSending service descriptor,
                                          DispatchCall service descriptor rule_name alert
                                            RaisedNonException]))))))
           | _ \<Rightarrow> (Inr [], [LogErrorImproperOutput token]))
      | _ \<Rightarrow> (Inl AttributeError, []))"

text \<open>The loop: an exception ends it, and the caller gets the exception, not the results
  yielded so far; the effects stay.\<close>

fun run_loop ::
  "env \<Rightarrow> string \<Rightarrow> string \<Rightarrow> json \<Rightarrow> json \<Rightarrow> json \<Rightarrow> json list \<Rightarrow> (bool \<times> string) list io" where
  "run_loop env region fname config rule_name alert [] = (Inr [], [])"
| "run_loop env region fname config rule_name alert (output # rest) =
     (case run_output env region fname config rule_name alert output of
        (Inl e, t) \<Rightarrow> (Inl e, t)
      | (Inr ys, t) \<Rightarrow>
          (case run_loop env region fname config rule_name alert rest of
             (Inl e, t') \<Rightarrow> (Inl e, t @ t')
           | (Inr zs, t') \<Rightarrow> (Inr (ys @ zs), t @ t')))"

text \<open>
  \<^verbatim>\<open>
  LOGGER.debug(loaded_sns_message)
  alert = loaded_sns_message['default']
  rule_name = alert['metadata']['rule_name']
  alert = _sort_dict(alert)
  outputs = alert['metadata']['outputs']
  for output in set(outputs): ...
  \<close>
\<close>

definition run :: "env \<Rightarrow> json \<Rightarrow> string \<Rightarrow> string \<Rightarrow> json \<Rightarrow> (bool \<times> string) list io" where
  "run env loaded_sns_message region fname config =
     (case getitem loaded_sns_message ''default'' of
        Inl e \<Rightarrow> (Inl e, [LogDebugMessage loaded_sns_message])
      | Inr alert \<Rightarrow>
     (case getitem2 alert ''metadata'' ''rule_name'' of
        Inl e \<Rightarrow> (Inl e, [LogDebugMessage loaded_sns_message])
      | Inr rule_name \<Rightarrow>
     (case sort_dict_call alert of
        Inl e \<Rightarrow> (Inl e, [LogDebugMessage loaded_sns_message])
      | Inr sorted_alert \<Rightarrow>
     (case getitem2 sorted_alert ''metadata'' ''outputs'' of
        Inl e \<Rightarrow> (Inl e, [LogDebugMessage loaded_sns_message])
      | Inr outputs \<Rightarrow>
     (case py_set (set_order env) outputs of
        Inl e \<Rightarrow> (Inl e, [LogDebugMessage loaded_sns_message])
      | Inr tokens \<Rightarrow>
     (case run_loop env region fname config rule_name sorted_alert tokens of
        (r, t) \<Rightarrow> (r, LogDebugMessage loaded_sns_message # t)))))))"

section \<open>\<^verbatim>\<open>handler\<close>\<close>

text \<open>
  The body of \<^verbatim>\<open>for record in records\<close>: the results it adds to \<^verbatim>\<open>status_values\<close>
  (none after a \<^verbatim>\<open>continue\<close>) and its effects. Only the ValueError of \<^verbatim>\<open>json.loads\<close>
  is caught; \<^verbatim>\<open>json.loads\<close> of a value that is not a string raises TypeError.
\<close>

definition handler_record ::
  "env \<Rightarrow> string \<Rightarrow> string \<Rightarrow> json \<Rightarrow> json \<Rightarrow> (bool \<times> string) list io" where
  "handler_record env region fname config record =
     (case dict_get record ''Sns'' JNull of
        Inl e \<Rightarrow> (Inl e, [])
      | Inr sns_payload \<Rightarrow>
          if \<not> truthy sns_payload then (Inr [], [])
          else
            (case getitem sns_payload ''Message'' of
               Inl e \<Rightarrow> (Inl e, [])
             | Inr (JStr sns_message) \<Rightarrow>
                 (case json_loads env sns_message of
                    None \<Rightarrow> (Inr [], [LogErrorDecode])
                  | Some loaded_sns_message \<Rightarrow>
                      (case contains ''default'' loaded_sns_message of
                         Inl e \<Rightarrow> (Inl e, [])
                       | Inr True \<Rightarrow> run env loaded_sns_message region fname config
                       | Inr False \<Rightarrow>
                           (case contains ''AlarmName'' loaded_sns_message of
                              Inl e \<Rightarrow> (Inl e, [])
                            | Inr True \<Rightarrow> (Inr [], [])
                            | Inr False \<Rightarrow>
                                (Inr [], [LogErrorMalformedSns loaded_sns_message]))))
             | Inr _ \<Rightarrow> (Inl TypeError, [])))"

fun handler_loop ::
  "env \<Rightarrow> string \<Rightarrow> string \<Rightarrow> json \<Rightarrow> json list \<Rightarrow> (bool \<times> string) list io" where
  "handler_loop env region fname config [] = (Inr [], [])"
| "handler_loop env region fname config (record # rest) =
     (case handler_record env region fname config record of
        (Inl e, t) \<Rightarrow> (Inl e, t)
      | (Inr ys, t) \<Rightarrow>
          (case handler_loop env region fname config rest of
             (Inl e, t') \<Rightarrow> (Inl e, t @ t')
           | (Inr zs, t') \<Rightarrow> (Inr (ys @ zs), t @ t')))"

text \<open>\<^verbatim>\<open>context.invoked_function_arn.split(':')[3]\<close>.\<close>

definition region_of :: "lambda_context \<Rightarrow> py_error + string" where
  "region_of ctx =
     (let parts = split_on CHR '':'' (invoked_function_arn ctx)
      in if 3 < length parts then Inr (parts ! 3) else Inl IndexError)"

text \<open>
  \<^verbatim>\<open>
  records = event.get('Records', [])
  LOGGER.info('Running alert processor for %d records', len(records))
  config = _load_output_config()
  if not config:
      return
  region = context.invoked_function_arn.split(':')[3]
  function_name = context.function_name
  status_values = []
  for record in records: ...
  return status_values
  \<close>
  The result is \<open>None\<close> for the bare \<^verbatim>\<open>return\<close>, the list of status values otherwise.
\<close>

definition handler :: "env \<Rightarrow> json \<Rightarrow> lambda_context \<Rightarrow> (bool \<times> string) list option io" where
  "handler env event ctx =
     (case dict_get event ''Records'' (JList []) of
        Inl e \<Rightarrow> (Inl e, [])
      | Inr records \<Rightarrow>
     (case py_len records of
        Inl e \<Rightarrow> (Inl e, [])
      | Inr n \<Rightarrow>
     (case load_output_config env ''conf/outputs.json'' of
        (Inl e, t) \<Rightarrow> (Inl e, LogInfoRunning n # t)
      | (Inr config, t) \<Rightarrow>
          if \<not> truthy config then (Inr None, LogInfoRunning n # t)
          else
     (case region_of ctx of
        Inl e \<Rightarrow> (Inl e, LogInfoRunning n # t)
      | Inr region \<Rightarrow>
     (case py_iter records of
        Inl e \<Rightarrow> (Inl e, LogInfoRunning n # t)
      | Inr rs \<Rightarrow>
     (case handler_loop env region (function_name ctx) config rs of
        (Inl e, t') \<Rightarrow> (Inl e, LogInfoRunning n # t @ t')
      | (Inr status_values, t') \<Rightarrow> (Inr (Some status_values), LogInfoRunning n # t @ t')))))))"


section \<open>Notions the claims are stated with\<close>

text \<open>
  The dispatch calls among some effects as results, in their order: one entry for each
  call, \<^verbatim>\<open>sent\<close> being what the call returned and \<open>False\<close> when it raised, with the
  token \<^verbatim>\<open>service:descriptor\<close> of the call.
\<close>

fun call_results :: "effect list \<Rightarrow> (bool \<times> string) list" where
  "call_results [] = []"
| "call_results (DispatchCall service descriptor rule_name alert outcome # es) =
     ((case outcome of Returned sent \<Rightarrow> sent | Raised \<Rightarrow> False
       | RaisedNonException \<Rightarrow> False),
      service @ '':'' @ descriptor) # call_results es"
| "call_results (e # es) = call_results es"

text \<open>The effects of the tokens, each processed by an iteration of its own.\<close>

definition token_effects ::
  "env \<Rightarrow> string \<Rightarrow> string \<Rightarrow> json \<Rightarrow> json \<Rightarrow> json \<Rightarrow> string list \<Rightarrow> effect list" where
  "token_effects env region fname config rule_name alert ts =
     concat (map (\<lambda>t. snd (run_output env region fname config rule_name alert (JStr t))) ts)"


text \<open>
  An alert that is a dict whose \<^verbatim>\<open>metadata\<close> is a dict with the keys \<^verbatim>\<open>rule_name\<close> and
  \<^verbatim>\<open>outputs\<close>.
\<close>

definition has_routing_metadata :: "json \<Rightarrow> bool" where
  "has_routing_metadata alert =
     (case alert of
        JDict m \<Rightarrow>
          (case map_of m ''metadata'' of
             Some (JDict md) \<Rightarrow> ''rule_name'' \<in> set (map fst md) \<and> ''outputs'' \<in> set (map fst md)
           | _ \<Rightarrow> False)
      | _ \<Rightarrow> False)"

section \<open>Example values\<close>

definition ex_alert :: "(string \<times> json) list" where
  "ex_alert =
     [(''record'', JDict [(''user'', JStr ''root''),
                          (''cmd'', JList [JDict [(''z'', JInt 1), (''b'', JInt 2)]])]),
      (''metadata'', JDict [(''rule_name'', JStr ''r1''),
                            (''outputs'', JList [JStr ''slack:ok'', JStr ''pagerduty:oncall'',
                                                 JStr ''bogus'', JStr ''slack:ok''])])]"

definition ex_services :: "(string \<times> json) list" where
  "ex_services = [(''slack'', JList [JStr ''ok'']), (''pagerduty'', JList [JStr ''oncall''])]"

definition ex_config :: json where
  "ex_config = JDict ex_services"

text \<open>
  A world with a readable configuration, a parser that knows four documents, a slack
  dispatcher that sends and a pagerduty dispatcher that raises.
\<close>

definition ex_env :: env where
  "ex_env = \<lparr>
     open_file = (\<lambda>path. if path = ''conf/outputs.json'' then Some ''CONFIG'' else None),
     json_loads = (\<lambda>s.
        if s = ''CONFIG'' then Some ex_config
        else if s = ''ALERT'' then Some (JDict [(''default'', JDict ex_alert)])
        else if s = ''NO-METADATA'' then Some (JDict [(''default'', JDict [(''record'', JDict [])])])
        else if s = ''{}'' then Some (JDict [])
        else None),
     get_output_dispatcher = (\<lambda>service region fname config.
        if service = ''slack'' then Some (\<lambda>descriptor rule_name alert. Returned True)
        else if service = ''pagerduty'' then Some (\<lambda>descriptor rule_name alert. Raised)
        else None),
     set_order = (\<lambda>xs. xs) \<rparr>"

definition ex_ctx :: lambda_context where
  "ex_ctx = \<lparr> invoked_function_arn = ''arn:aws:lambda:us-east-1:123456789012:function:sa'',
              function_name = ''sa'' \<rparr>"

text \<open>A record that carries the message \<open>s\<close>.\<close>

definition sns_record :: "string \<Rightarrow> json" where
  "sns_record s = JDict [(''EventSource'', JStr ''aws:sns''), (''Sns'', JDict [(''Message'', JStr s)])]"

section \<open>Lemmas on \<^verbatim>\<open>_sort_dict\<close>\<close>

lemma update_fresh:
  "k \<notin> fst ` set al \<Longrightarrow> AList.update k v al = al @ [(k, v)]"
  by (induction al) auto

lemma fold_update_distinct:
  "distinct (map fst xs) \<Longrightarrow> fst ` set acc \<inter> fst ` set xs = {} \<Longrightarrow>
     fold (\<lambda>(k, v) r. AList.update k (f v) r) xs acc = acc @ map (\<lambda>(k, v). (k, f v)) xs"
proof (induction xs arbitrary: acc)
  case Nil
  then show ?case by simp
next
  case (Cons x xs)
  obtain k v where x: "x = (k, v)" by (cases x)
  from Cons.prems x have fresh: "k \<notin> fst ` set acc" by auto
  from Cons.prems x have d: "distinct (map fst xs)" and nk: "k \<notin> fst ` set xs" by auto
  from Cons.prems x nk have disj: "fst ` set (acc @ [(k, f v)]) \<inter> fst ` set xs = {}" by auto
  show ?case
    using Cons.IH [OF d disj] by (simp add: x update_fresh [OF fresh])
qed

lemma sort_dict_body:
  "(case val of JDict d \<Rightarrow> AList.update key (JDict (sort_dict d)) result
    | _ \<Rightarrow> AList.update key val result) = AList.update key (sort_value val) result"
  by (cases val) (simp_all add: sort_value_def)

lemma sort_dict_fold:
  "sort_dict m = fold (\<lambda>(k, v) r. AList.update k (sort_value v) r) (sort_key fst m) []"
  by (subst sort_dict.simps) (simp add: sort_dict_body)

lemma distinct_keys_sort_key:
  "distinct (map fst m) \<Longrightarrow> distinct (map fst (sort_key fst m))"
proof -
  assume d: "distinct (map fst m)"
  have "mset (map fst (sort_key fst m)) = mset (map fst m)"
    by simp
  from mset_eq_imp_distinct_iff [OF this] d show ?thesis by simp
qed

lemma sort_dict_map:
  "distinct (map fst m) \<Longrightarrow>
     sort_dict m = map (\<lambda>(k, v). (k, sort_value v)) (sort_key fst m)"
  using fold_update_distinct [of "sort_key fst m" "[]" sort_value]
  by (simp add: sort_dict_fold distinct_keys_sort_key)

lemma keys_sort_dict:
  "distinct (map fst m) \<Longrightarrow> map fst (sort_dict m) = map fst (sort_key fst m)"
proof -
  assume d: "distinct (map fst m)"
  have "map fst (map (\<lambda>(k, v). (k, sort_value v)) xs) = map fst xs" for xs
    by (induction xs) auto
  then show ?thesis
    by (simp add: sort_dict_map [OF d])
qed

lemma wf_json_entry: "wf_json (JDict m) \<Longrightarrow> (k, v) \<in> set m \<Longrightarrow> wf_json v"
  by auto

lemma sort_value_simps [simp]:
  "sort_value (JDict d) = JDict (sort_dict d)"
  "sort_value (JList xs) = JList xs"
  "sort_value JNull = JNull"
  "sort_value (JBool b) = JBool b"
  "sort_value (JInt i) = JInt i"
  "sort_value (JFloat r) = JFloat r"
  "sort_value (JStr s) = JStr s"
  by (simp_all add: sort_value_def)

lemma set_sort_dict:
  "distinct (map fst m) \<Longrightarrow> set (sort_dict m) = (\<lambda>(k, v). (k, sort_value v)) ` set m"
  by (simp add: sort_dict_map)

lemma sorted_keys_sort_dict:
  "distinct (map fst m) \<Longrightarrow> sorted (map fst (sort_dict m))"
  by (simp add: keys_sort_dict)

lemma distinct_keys_sort_dict:
  "distinct (map fst m) \<Longrightarrow> distinct (map fst (sort_dict m))"
  by (simp add: keys_sort_dict distinct_keys_sort_key)

lemma set_keys_sort_dict:
  "distinct (map fst m) \<Longrightarrow> set (map fst (sort_dict m)) = set (map fst m)"
  by (simp add: keys_sort_dict)

lemma map_of_sort_dict:
  assumes d: "distinct (map fst m)"
  shows "map_of (sort_dict m) k = map_option sort_value (map_of m k)"
proof -
  have "map_of (sort_key fst m) = map_of m"
    using d by (intro map_of_eqI) (auto simp: distinct_keys_sort_key)
  hence "map_of (sort_key fst m) = map_of m" .
  moreover have "map_of (map (\<lambda>(k, v). (k, sort_value v)) xs) k = map_option sort_value (map_of xs k)" for xs
    by (induction xs) auto
  ultimately show ?thesis by (simp add: sort_dict_map [OF d])
qed

lemma sort_dict_idem_aux:
  "wf_json (JDict m) \<Longrightarrow> sort_dict (sort_dict m) = sort_dict m"
proof (induction m rule: sort_dict.induct)
  case (1 m)
  from "1.prems" have d: "distinct (map fst m)" by simp
  let ?g = "\<lambda>(k, v). (k, sort_value v)"
  let ?xs = "sort_key fst m"
  have sd: "sort_dict m = map ?g ?xs" by (rule sort_dict_map [OF d])
  have inner: "sort_value (sort_value v) = sort_value v" if "(k, v) \<in> set m" for k v
  proof (cases v)
    case (JDict dd)
    have "wf_json (JDict dd)" using wf_json_entry [OF "1.prems" that] JDict by simp
    with "1.IH" [of "(k, v)" k v dd] that JDict show ?thesis by simp
  qed simp_all
  have "sort_key fst (sort_dict m) = sort_dict m"
    by (rule sort_key_id_if_sorted) (rule sorted_keys_sort_dict [OF d])
  hence "sort_dict (sort_dict m) = map ?g (sort_dict m)"
    by (simp add: sort_dict_map [OF distinct_keys_sort_dict [OF d]])
  also have "\<dots> = map ?g (map ?g ?xs)" by (simp only: sd)
  also have "\<dots> = map ?g ?xs" using inner by auto
  finally show ?case by (simp only: sd)
qed

lemma dict_paths_sorted_sort_dict:
  "wf_json (JDict m) \<Longrightarrow> dict_paths_sorted (JDict (sort_dict m))"
proof (induction m rule: sort_dict.induct)
  case (1 m)
  from "1.prems" have d: "distinct (map fst m)" by simp
  have inner: "dict_paths_sorted (sort_value v)" if "(k, v) \<in> set m" for k v
  proof (cases v)
    case (JDict dd)
    have "wf_json (JDict dd)" using wf_json_entry [OF "1.prems" that] JDict by simp
    with "1.IH" [of "(k, v)" k v dd] that JDict show ?thesis by simp
  qed simp_all
  show ?case
    using inner by (auto simp: sorted_keys_sort_dict [OF d] set_sort_dict [OF d])
qed

lemma lookup_keys_sort_value:
  "wf_json v \<Longrightarrow>
     lookup_path (sort_value v) (map Key ks) = map_option sort_value (lookup_path v (map Key ks))"
proof (induction ks arbitrary: v)
  case Nil
  show ?case by simp
next
  case (Cons k ks)
  show ?case
  proof (cases v)
    case (JDict d)
    with Cons.prems have dist: "distinct (map fst d)" by simp
    show ?thesis
    proof (cases "map_of d k")
      case None
      then show ?thesis by (simp add: JDict map_of_sort_dict [OF dist])
    next
      case (Some w)
      hence "(k, w) \<in> set d" by (rule map_of_SomeD)
      with Cons.prems JDict have "wf_json w" using wf_json_entry by blast
      from Cons.IH [OF this] Some show ?thesis
        by (simp add: JDict map_of_sort_dict [OF dist])
    qed
  qed simp_all
qed

lemma node_of_sort_value:
  "wf_json v \<Longrightarrow> node_of (sort_value v) = node_of v"
  by (cases v) (simp_all add: node_of_def keys_sort_dict)

lemma wf_json_nth: "wf_json (JList xs) \<Longrightarrow> i < length xs \<Longrightarrow> wf_json (xs ! i)"
  by simp

lemma node_at_path_sort_value:
  "wf_json v \<Longrightarrow>
     map_option node_of (lookup_path (sort_value v) p) = map_option node_of (lookup_path v p)"
proof (induction p arbitrary: v)
  case Nil
  then show ?case by (simp add: node_of_sort_value)
next
  case (Cons s p)
  show ?case
  proof (cases v)
    case (JDict d)
    with Cons.prems have dist: "distinct (map fst d)" by simp
    show ?thesis
    proof (cases s)
      case (Key k)
      show ?thesis
      proof (cases "map_of d k")
        case None
        then show ?thesis by (simp add: JDict Key map_of_sort_dict [OF dist])
      next
        case (Some w)
        hence "(k, w) \<in> set d" by (rule map_of_SomeD)
        with Cons.prems JDict have "wf_json w" using wf_json_entry by blast
        from Cons.IH [OF this] Some show ?thesis
          by (simp add: JDict Key map_of_sort_dict [OF dist])
      qed
    next
      case (Index i)
      then show ?thesis by (simp add: JDict)
    qed
  qed simp_all
qed


section \<open>Lemmas on \<^verbatim>\<open>run\<close>\<close>

lemma split_on_nonempty: "split_on sep s \<noteq> []"
  by (induction s) (auto split: list.splits)

lemma length_split_on: "length (split_on sep s) = Suc (count_list s sep)"
  by (induction s) (auto split: list.splits simp: split_on_nonempty)

lemma split_on_one: "split_on sep s = [p] \<Longrightarrow> s = p"
  by (induction s arbitrary: p) (auto split: list.splits if_splits simp: split_on_nonempty)

lemma split_on_two: "split_on sep s = [p, q] \<Longrightarrow> s = p @ sep # q"
proof (induction s arbitrary: p)
  case Nil
  then show ?case by simp
next
  case (Cons c cs)
  show ?case
  proof (cases "c = sep")
    case True
    with Cons.prems have "p = []" "split_on sep cs = [q]" by auto
    with split_on_one [of sep cs q] True show ?thesis by simp
  next
    case False
    with Cons.prems obtain p' where "p = c # p'" "split_on sep cs = [p', q]"
      by (auto split: list.splits)
    with Cons.IH [of p'] show ?thesis by simp
  qed
qed

lemma run_output_improper_aux:
  "length (split_on CHR '':'' token) \<noteq> 2 \<Longrightarrow>
     run_output env region fname config rule_name alert (JStr token)
       = (Inr [], [LogErrorImproperOutput token])"
  by (auto simp: run_output_def split: list.splits)

lemma call_results_append: "call_results (es @ fs) = call_results es @ call_results fs"
  by (induction es rule: call_results.induct) auto

text \<open>The results of one iteration are those of its dispatch calls: at most one, for its token.\<close>

lemma run_output_results:
  "run_output env region fname config rule_name alert output = (Inr ys, t) \<Longrightarrow>
     ys = call_results t"
  by (auto simp: run_output_def split: json.splits list.splits sum.splits bool.splits
        option.splits dispatch_outcome.splits dest: split_on_two)

lemma run_output_calls:
  "set (map snd (call_results (snd (run_output env region fname config rule_name alert output))))
     \<subseteq> {s. output = JStr s}
   \<and> length (call_results (snd (run_output env region fname config rule_name alert output))) \<le> 1"
  by (auto simp: run_output_def split: json.splits list.splits sum.splits bool.splits
        option.splits dispatch_outcome.splits dest: split_on_two)







lemma call_results_raised:
  "DispatchCall service descriptor rule_name alert Raised \<in> set es \<Longrightarrow>
     (False, service @ '':'' @ descriptor) \<in> set (call_results es)"
  by (induction es rule: call_results.induct) auto

lemma run_loop_results:
  "run_loop env region fname config rule_name alert outputs = (Inr ys, t) \<Longrightarrow>
     ys = call_results t"
proof (induction outputs arbitrary: ys t)
  case Nil
  then show ?case by simp
next
  case (Cons x xs)
  from Cons.prems obtain y1 t1 y2 t2 where
    a: "run_output env region fname config rule_name alert x = (Inr y1, t1)" and
    b: "run_loop env region fname config rule_name alert xs = (Inr y2, t2)" and
    c: "ys = y1 @ y2" "t = t1 @ t2"
    by (auto split: prod.splits sum.splits)
  from run_output_results [OF a] Cons.IH [OF b] c show ?case
    by (simp add: call_results_append)
qed

lemma run_loop_call_tokens:
  "set (map snd (call_results (snd (run_loop env region fname config rule_name alert outputs))))
     \<subseteq> {s. JStr s \<in> set outputs}"
proof (induction outputs)
  case Nil
  show ?case by simp
next
  case (Cons x xs)
  have one: "set (map snd (call_results (snd (run_output env region fname config rule_name alert x))))
               \<subseteq> {s. x = JStr s}"
    using run_output_calls [of env region fname config rule_name alert x] by blast
  show ?case
    using one Cons.IH
    by (cases "run_output env region fname config rule_name alert x";
        cases "run_loop env region fname config rule_name alert xs")
       (auto split: sum.splits simp: call_results_append)
qed

lemma run_loop_calls_distinct:
  "distinct outputs \<Longrightarrow>
     distinct (map snd (call_results (snd (run_loop env region fname config rule_name alert outputs))))"
proof (induction outputs)
  case Nil
  show ?case by simp
next
  case (Cons x xs)
  have one: "set (map snd (call_results (snd (run_output env region fname config rule_name alert x))))
               \<subseteq> {s. x = JStr s}"
    and len: "length (call_results (snd (run_output env region fname config rule_name alert x))) \<le> 1"
    using run_output_calls [of env region fname config rule_name alert x] by blast+
  from len have d1: "distinct (map snd (call_results (snd (run_output env region fname config rule_name alert x))))"
    by (cases "call_results (snd (run_output env region fname config rule_name alert x))") auto
  from Cons have d2: "distinct (map snd (call_results (snd (run_loop env region fname config rule_name alert xs))))"
    and nx: "x \<notin> set xs" by auto
  have rest: "set (map snd (call_results (snd (run_loop env region fname config rule_name alert xs))))
               \<subseteq> {s. JStr s \<in> set xs}"
    by (rule run_loop_call_tokens)
  show ?case
    using one d1 d2 nx rest
    by (cases "run_output env region fname config rule_name alert x";
        cases "run_loop env region fname config rule_name alert xs")
       (auto split: sum.splits simp: call_results_append)
qed

lemma py_eq_refl: "py_eq x x"
  by (simp add: py_eq_def split: option.splits)

lemma set_py_dedup: "set (py_dedup xs) \<subseteq> set xs"
  by (induction xs rule: py_dedup.induct) auto

lemma distinct_py_dedup: "distinct (py_dedup xs)"
proof (induction xs rule: py_dedup.induct)
  case 1
  show ?case by simp
next
  case (2 x xs)
  have "x \<notin> set (filter (\<lambda>y. \<not> py_eq x y) xs)" by (simp add: py_eq_refl)
  with set_py_dedup [of "filter (\<lambda>y. \<not> py_eq x y) xs"] have "x \<notin> set (py_dedup (filter (\<lambda>y. \<not> py_eq x y) xs))"
    by blast
  with 2 show ?case by simp
qed

lemma py_set_distinct:
  "\<forall>xs. mset (order xs) = mset xs \<Longrightarrow> py_set order x = Inr tokens \<Longrightarrow> distinct tokens"
  using distinct_py_dedup mset_eq_imp_distinct_iff
  by (fastforce simp: py_set_def split: sum.splits if_splits)

lemma run_calls_distinct:
  assumes "\<forall>xs. mset (set_order env xs) = mset xs"
  shows "distinct (map snd (call_results (snd (run env msg region fname config))))"
proof -
  have "distinct (map snd (call_results t))"
    if "py_set (set_order env) x = Inr tokens"
      and "run_loop env region fname config rn al tokens = (r, t)" for x tokens rn al r t
    using run_loop_calls_distinct [OF py_set_distinct [OF assms that(1)],
        of env region fname config rn al] that(2)
    by simp
  then show ?thesis
    by (auto simp: run_def split: sum.splits prod.splits)
qed

lemma run_results:
  "run env msg region fname config = (Inr ys, t) \<Longrightarrow> ys = call_results t"
  by (auto simp: run_def split: sum.splits prod.splits dest: run_loop_results)





lemma run_output_call_token:
  "DispatchCall service descriptor rn al outcome
     \<in> set (snd (run_output env region fname config rule_name alert (JStr t)))
   \<Longrightarrow> t = service @ '':'' @ descriptor"
  by (auto simp: run_output_def split: list.splits sum.splits bool.splits option.splits
        dispatch_outcome.splits dest: split_on_two)

lemma token_effects_mem:
  "t \<in> set ts \<Longrightarrow>
     set (snd (run_output env region fname config rule_name alert (JStr t)))
       \<subseteq> set (token_effects env region fname config rule_name alert ts)"
  by (auto simp: token_effects_def)

section \<open>Lemmas on \<^verbatim>\<open>handler\<close>\<close>

lemma getitem_JDict:
  "getitem (JDict kvs) k = (case map_of kvs k of None \<Rightarrow> Inl KeyError | Some v \<Rightarrow> Inr v)"
  by (simp add: getitem_def)

lemma getitem_not_dict:
  "\<forall>kvs. x \<noteq> JDict kvs \<Longrightarrow> getitem x k = Inl TypeError"
  by (cases x) (simp_all add: getitem_def)

lemma run_bad_alert:
  assumes wf: "wf_json (JDict kv)"
    and dflt: "map_of kv ''default'' = Some alert"
    and bad: "\<not> has_routing_metadata alert"
  shows "\<exists>e. run env (JDict kv) region fname config = (Inl e, [LogDebugMessage (JDict kv)])"
proof -
  have g0: "getitem (JDict kv) ''default'' = Inr alert"
    by (simp add: getitem_JDict dflt)
  note g0 = g0 dflt
  from wf dflt have wfa: "wf_json alert"
    using wf_json_entry map_of_SomeD by fastforce
  show ?thesis
  proof (cases "\<exists>m. alert = JDict m")
    case False
    then have "getitem alert ''metadata'' = Inl TypeError"
      by (simp add: getitem_not_dict)
    then show ?thesis by (simp add: run_def g0 getitem2_def)
  next
    case True
    then obtain m where m: "alert = JDict m" by blast
    from wfa m have dm: "distinct (map fst m)" by simp
    show ?thesis
    proof (cases "map_of m ''metadata''")
      case None
      then show ?thesis by (simp add: run_def g0 getitem2_def m getitem_JDict)
    next
      case (Some meta)
      with wfa m have wfm: "wf_json meta"
        using wf_json_entry map_of_SomeD by fastforce
      show ?thesis
      proof (cases "\<exists>md. meta = JDict md")
        case False
        then have "getitem meta ''rule_name'' = Inl TypeError"
          by (simp add: getitem_not_dict)
        then show ?thesis by (simp add: run_def g0 getitem2_def m getitem_JDict Some)
      next
        case True
        then obtain md where md: "meta = JDict md" by blast
        from wfm md have dmd: "distinct (map fst md)" by simp
        show ?thesis
        proof (cases "map_of md ''rule_name''")
          case None
          then show ?thesis
            by (simp add: run_def g0 getitem2_def m getitem_JDict Some md)
        next
          case rn: (Some rule_name)
          then have "''rule_name'' \<in> set (map fst md)"
            by (metis map_of_eq_None_iff option.distinct(1) set_map)
          with bad m Some md have "''outputs'' \<notin> set (map fst md)"
            by (simp add: has_routing_metadata_def)
          then have "map_of md ''outputs'' = None"
            by (simp add: map_of_eq_None_iff)
          then show ?thesis
            by (simp add: run_def g0 getitem2_def m getitem_JDict Some md rn sort_dict_call_def
                  map_of_sort_dict [OF dm] map_of_sort_dict [OF dmd])
        qed
      qed
    qed
  qed
qed

lemma handler_record_bad_alert:
  assumes "map_of r ''Sns'' = Some (JDict p)"
    and "map_of p ''Message'' = Some (JStr s)"
    and "json_loads env s = Some (JDict kv)"
    and "wf_json (JDict kv)"
    and "map_of kv ''default'' = Some alert"
    and "\<not> has_routing_metadata alert"
  shows "\<exists>e t. handler_record env region fname config (JDict r) = (Inl e, t)"
proof -
  from assms(2) have "p \<noteq> []" by auto
  moreover from assms(5) have "''default'' \<in> fst ` set kv"
    by (metis map_of_eq_None_iff option.distinct(1))
  moreover from run_bad_alert [OF assms(4,5,6), of env region fname config]
  obtain e where "run env (JDict kv) region fname config = (Inl e, [LogDebugMessage (JDict kv)])"
    by blast
  ultimately show ?thesis
    using assms(1,2,3)
    by (simp add: handler_record_def dict_get_def getitem_JDict contains_def)
qed

lemma handler_loop_raises:
  assumes "record \<in> set records"
    and "\<exists>e t. handler_record env region fname config record = (Inl e, t)"
  shows "\<exists>e t. handler_loop env region fname config records = (Inl e, t)"
  using assms(1)
proof (induction records)
  case Nil
  then show ?case by simp
next
  case (Cons x xs)
  show ?case
  proof (cases "handler_record env region fname config x")
    case (Pair res t)
    show ?thesis
    proof (cases res)
      case (Inl e)
      with Pair show ?thesis by simp
    next
      case (Inr ys)
      with Pair assms(2) have "x \<noteq> record" by auto
      with Cons obtain e' t' where "handler_loop env region fname config xs = (Inl e', t')"
        by auto
      with Pair Inr show ?thesis by simp
    qed
  qed
qed

lemma handler_loop_skip:
  assumes "handler_record env region fname config record = (Inr [], [])"
  shows "handler_loop env region fname config (before @ record # after)
           = handler_loop env region fname config (before @ after)"
proof (induction before)
  case Nil
  show ?case by (simp add: assms split: prod.splits sum.splits)
next
  case (Cons x xs)
  show ?case by (simp only: append_Cons handler_loop.simps Cons.IH)
qed

lemma handler_record_no_sns:
  "dict_get record ''Sns'' JNull = Inr sns_payload \<Longrightarrow> \<not> truthy sns_payload \<Longrightarrow>
     handler_record env region fname config record = (Inr [], [])"
  by (simp add: handler_record_def)

lemma handler_falsy_config:
  assumes "dict_get event ''Records'' (JList []) = Inr records"
    and "py_len records = Inr n"
    and "open_file env ''conf/outputs.json'' = Some content"
    and "json_loads env content = Some config"
    and "\<not> truthy config"
  shows "handler env event ctx = (Inr None, [LogInfoRunning n])"
  using assms by (simp add: handler_def load_output_config_def)

lemma handler_parse_failure:
  assumes "dict_get event ''Records'' (JList []) = Inr records"
    and "py_len records = Inr n"
    and "open_file env ''conf/outputs.json'' = Some content"
    and "json_loads env content = None"
  shows "handler env event ctx = (Inr None, [LogInfoRunning n, LogErrorConfig])"
  using assms by (simp add: handler_def load_output_config_def)

lemma handler_open_failure:
  assumes "dict_get event ''Records'' (JList []) = Inr records"
    and "py_len records = Inr n"
    and "open_file env ''conf/outputs.json'' = None"
  shows "handler env event ctx = (Inl IOError, [LogInfoRunning n])"
  using assms by (simp add: handler_def load_output_config_def)

lemma handler_bad_alert:
  assumes "dict_get event ''Records'' (JList []) = Inr (JList records)"
    and "open_file env ''conf/outputs.json'' = Some content"
    and "json_loads env content = Some config"
    and "truthy config"
    and "JDict r \<in> set records"
    and "map_of r ''Sns'' = Some (JDict p)"
    and "map_of p ''Message'' = Some (JStr s)"
    and "json_loads env s = Some (JDict kv)"
    and "wf_json (JDict kv)"
    and "map_of kv ''default'' = Some alert"
    and "\<not> has_routing_metadata alert"
  shows "\<exists>e t. handler env event ctx = (Inl e, t)"
proof (cases "region_of ctx")
  case (Inl e)
  with assms(1-4) show ?thesis
    by (simp add: handler_def load_output_config_def py_len_def)
next
  case (Inr region)
  from handler_loop_raises [OF assms(5) handler_record_bad_alert [OF assms(6-11)]]
  obtain e t where "handler_loop env region (function_name ctx) config records = (Inl e, t)"
    by blast
  with Inr assms(1-4) show ?thesis
    by (simp add: handler_def load_output_config_def py_len_def py_iter_def)
qed

section \<open>Claims on \<^verbatim>\<open>_sort_dict\<close>\<close>

text \<open>
  C1, as stated: after canonicalization every dict of the alert, also a dict inside a list,
  has its keys in sorted order. It fails: \<^verbatim>\<open>_sort_dict\<close> recurses into dict values only,
  so the dict inside the list under \<^verbatim>\<open>record.cmd\<close> keeps the order \<^verbatim>\<open>z, b\<close>.
\<close>

theorem sort_dict_list_member_unsorted:
  "wf_json (JDict ex_alert) \<and> \<not> all_dicts_sorted (JDict (sort_dict ex_alert))"
  by (simp add: ex_alert_def sort_dict.simps)

text \<open>
  C1, amended: after canonicalization the alert and every dict reached from it through dict
  values only has its keys in sorted order, and a list reached that way is returned as it
  was (the dicts inside it are not reordered).
\<close>

theorem sort_dict_dict_paths_sorted:
  "wf_json (JDict m) \<Longrightarrow>
     dict_paths_sorted (JDict (sort_dict m))
     \<and> (lookup_path (JDict m) (map Key ks) = Some (JList xs) \<longrightarrow>
          lookup_path (JDict (sort_dict m)) (map Key ks) = Some (JList xs))"
  using dict_paths_sorted_sort_dict [of m] lookup_keys_sort_value [of "JDict m" ks]
  by simp

theorem sort_dict_dict_paths_sorted_witness:
  "wf_json (JDict ex_alert)
   \<and> dict_paths_sorted (JDict (sort_dict ex_alert))
   \<and> lookup_path (JDict ex_alert) (map Key [''record'', ''cmd''])
       = Some (JList [JDict [(''z'', JInt 1), (''b'', JInt 2)]])
   \<and> lookup_path (JDict (sort_dict ex_alert)) (map Key [''record'', ''cmd''])
       = Some (JList [JDict [(''z'', JInt 1), (''b'', JInt 2)]])"
proof -
  have h: "wf_json (JDict ex_alert)" by (simp add: ex_alert_def)
  have l: "lookup_path (JDict ex_alert) (map Key [''record'', ''cmd''])
             = Some (JList [JDict [(''z'', JInt 1), (''b'', JInt 2)]])"
    by (simp add: ex_alert_def)
  show ?thesis
    using h l
      sort_dict_dict_paths_sorted [OF h, of "[''record'', ''cmd'']"
        "[JDict [(''z'', JInt 1), (''b'', JInt 2)]]"]
    by simp
qed

text \<open>
  C6: canonicalization is idempotent: sorting a sorted dict again returns it as it is, also
  in the order of the keys.
\<close>

theorem sort_dict_idempotent:
  "wf_json (JDict m) \<Longrightarrow> sort_dict (sort_dict m) = sort_dict m"
  by (rule sort_dict_idem_aux)

theorem sort_dict_idempotent_witness:
  "wf_json (JDict ex_alert) \<and> sort_dict (sort_dict ex_alert) = sort_dict ex_alert"
proof -
  have h: "wf_json (JDict ex_alert)" by (simp add: ex_alert_def)
  show ?thesis using h sort_dict_idempotent [OF h] by simp
qed

text \<open>
  C7: the canonical form has the same paths as the input, the same key set at every dict,
  the same length at every list and the same scalar at every leaf; only the order of the
  keys differs. \<^verbatim>\<open>_sort_dict\<close> reads its argument and writes the new \<^verbatim>\<open>OrderedDict\<close> only,
  which the model has as a function from the input value to the result.
\<close>

theorem sort_dict_same_content:
  "wf_json (JDict m) \<Longrightarrow>
     map_option node_of (lookup_path (JDict (sort_dict m)) p)
       = map_option node_of (lookup_path (JDict m) p)"
  using node_at_path_sort_value [of "JDict m" p] by simp

theorem sort_dict_same_content_witness:
  "wf_json (JDict ex_alert)
   \<and> map_option node_of (lookup_path (JDict (sort_dict ex_alert)) [Key ''metadata''])
       = Some (NDict {''rule_name'', ''outputs''})"
proof -
  have h: "wf_json (JDict ex_alert)" by (simp add: ex_alert_def)
  have "map_option node_of (lookup_path (JDict ex_alert) [Key ''metadata''])
          = Some (NDict {''rule_name'', ''outputs''})"
    by (simp add: ex_alert_def node_of_def)
  with h sort_dict_same_content [OF h, of "[Key ''metadata'']"] show ?thesis by simp
qed

section \<open>Claims on \<^verbatim>\<open>run\<close>\<close>

text \<open>
  C3, as stated: a token that does not split into exactly two non-empty parts, such as
  \<^verbatim>\<open>:desc\<close>, is recorded as malformed. It fails: \<^verbatim>\<open>':desc'.split(':')\<close> has two parts, the
  unpacking succeeds with an empty service, and the token goes on to the configuration
  lookup, which logs that the output does not exist.
\<close>

theorem empty_service_token_not_malformed:
  "run_output ex_env ''us-east-1'' ''sa'' ex_config (JStr ''r1'') (JDict ex_alert) (JStr '':desc'')
     = (Inr [], [LogErrorOutputMissing '':desc''])"
  by (simp add: run_output_def ex_config_def ex_services_def contains_def)

text \<open>
  C3, amended: a token that does not split on \<^verbatim>\<open>:\<close> into exactly two parts (no colon, or
  more than one) is logged as improperly formatted, yields no result and reaches no
  dispatcher, whatever the configuration and the registry are.
\<close>

theorem malformed_token_skipped:
  "count_list token CHR '':'' \<noteq> 1 \<Longrightarrow>
     run_output env region fname config rule_name alert (JStr token)
       = (Inr [], [LogErrorImproperOutput token])"
  by (rule run_output_improper_aux) (simp add: length_split_on)

theorem malformed_token_skipped_witness:
  "count_list ''a:b:c'' CHR '':'' \<noteq> 1
   \<and> run_output ex_env ''us-east-1'' ''sa'' ex_config (JStr ''r1'') (JDict ex_alert) (JStr ''a:b:c'')
       = (Inr [], [LogErrorImproperOutput ''a:b:c''])"
proof -
  have h: "count_list ''a:b:c'' CHR '':'' \<noteq> 1" by simp
  show ?thesis
    using h malformed_token_skipped [OF h, of ex_env "''us-east-1''" "''sa''" ex_config
        "JStr ''r1''" "JDict ex_alert"]
    by simp
qed



text \<open>
  C8: whatever the order a set is iterated in, the dispatch calls of one alert have pairwise
  different tokens, and when \<^verbatim>\<open>run\<close> returns, its results are one for each of these calls:
  a token listed several times in \<^verbatim>\<open>outputs\<close> is tried once and reported once.
\<close>

theorem one_dispatch_per_unique_token:
  assumes "\<forall>xs. mset (set_order env xs) = mset xs"
  shows "distinct (map snd (call_results (snd (run env msg region fname config))))
       \<and> (\<forall>results. fst (run env msg region fname config) = Inr results \<longrightarrow>
             results = call_results (snd (run env msg region fname config))
             \<and> distinct (map snd results))"
proof -
  have d: "distinct (map snd (call_results (snd (run env msg region fname config))))"
    by (rule run_calls_distinct [OF assms])
  have "results = call_results (snd (run env msg region fname config))
        \<and> distinct (map snd results)"
    if "fst (run env msg region fname config) = Inr results" for results
  proof -
    from that have "run env msg region fname config
                      = (Inr results, snd (run env msg region fname config))"
      by (cases "run env msg region fname config") simp
    from run_results [OF this] d show ?thesis by simp
  qed
  with d show ?thesis by blast
qed

theorem one_dispatch_per_unique_token_witness:
  "(\<forall>xs. mset (set_order ex_env xs) = mset xs)
   \<and> getitem2 (JDict ex_alert) ''metadata'' ''outputs''
       = Inr (JList [JStr ''slack:ok'', JStr ''pagerduty:oncall'', JStr ''bogus'', JStr ''slack:ok''])
   \<and> fst (run ex_env (JDict [(''default'', JDict ex_alert)]) ''us-east-1'' ''sa'' ex_config)
       = Inr [(True, ''slack:ok''), (False, ''pagerduty:oncall'')]
   \<and> distinct (map snd (call_results
        (snd (run ex_env (JDict [(''default'', JDict ex_alert)]) ''us-east-1'' ''sa'' ex_config))))"
proof -
  have h: "\<forall>xs. mset (set_order ex_env xs) = mset xs"
    by (simp add: ex_env_def)
  have o: "getitem2 (JDict ex_alert) ''metadata'' ''outputs''
       = Inr (JList [JStr ''slack:ok'', JStr ''pagerduty:oncall'', JStr ''bogus'', JStr ''slack:ok''])"
    by (simp add: getitem2_def getitem_def ex_alert_def)
  have r: "fst (run ex_env (JDict [(''default'', JDict ex_alert)]) ''us-east-1'' ''sa'' ex_config)
       = Inr [(True, ''slack:ok''), (False, ''pagerduty:oncall'')]"
    by code_simp
  from one_dispatch_per_unique_token [OF h, of "JDict [(''default'', JDict ex_alert)]"
      "''us-east-1''" "''sa''" ex_config]
  have d: "distinct (map snd (call_results
        (snd (run ex_env (JDict [(''default'', JDict ex_alert)]) ''us-east-1'' ''sa'' ex_config))))"
    by (rule conjunct1)
  from h o r d show ?thesis by (intro conjI)
qed

section \<open>Claims on \<^verbatim>\<open>handler\<close>\<close>

text \<open>
  C2, at the input where the claim and the code part: when \<^verbatim>\<open>conf/outputs.json\<close> cannot
  be opened, \<^verbatim>\<open>open\<close> raises outside the \<^verbatim>\<open>try\<close> of \<^verbatim>\<open>_load_output_config\<close>; the
  handler logs no error and does not return: the IOError reaches its caller. (With content
  that is not JSON the handler does log the error and return \<^verbatim>\<open>None\<close>:
  \<open>handler_parse_failure\<close>.)
\<close>

theorem handler_unopenable_config_raises:
  "handler (ex_env \<lparr> open_file := \<lambda>path. None \<rparr>)
     (JDict [(''Records'', JList [sns_record ''ALERT''])]) ex_ctx
   = (Inl IOError, [LogInfoRunning 1])"
  by (simp add: handler_def dict_get_def py_len_def load_output_config_def)

text \<open>
  C4, as stated: a record that has an \<^verbatim>\<open>Sns\<close> envelope without a \<^verbatim>\<open>Message\<close> key is skipped
  silently. It fails: only \<^verbatim>\<open>Sns\<close> is guarded, \<^verbatim>\<open>sns_payload['Message']\<close> raises KeyError,
  and the record after it is not processed.
\<close>

theorem handler_sns_without_message_raises:
  "handler ex_env
     (JDict [(''Records'', JList [JDict [(''Sns'', JDict [(''Subject'', JStr ''hello'')])],
                                  sns_record ''ALERT''])])
     ex_ctx
   = (Inl KeyError, [LogInfoRunning 2])"
  by (simp add: handler_def dict_get_def py_len_def load_output_config_def ex_env_def
        ex_config_def ex_services_def region_of_def ex_ctx_def py_iter_def handler_record_def getitem_def)

text \<open>
  C4, amended: a record whose \<^verbatim>\<open>Sns\<close> field is missing or falsy is skipped without a
  result, a log line or an exception, and the batch is processed as if the record were not
  in it.
\<close>

theorem handler_loop_skips_record_without_sns:
  assumes "dict_get record ''Sns'' JNull = Inr sns_payload" and "\<not> truthy sns_payload"
  shows "handler_record env region fname config record = (Inr [], [])
       \<and> handler_loop env region fname config (before @ record # after)
           = handler_loop env region fname config (before @ after)"
  using handler_record_no_sns [OF assms] handler_loop_skip by simp

theorem handler_loop_skips_record_without_sns_witness:
  "dict_get (JDict [(''EventSource'', JStr ''aws:kinesis'')]) ''Sns'' JNull = Inr JNull
   \<and> \<not> truthy JNull
   \<and> handler_loop ex_env ''us-east-1'' ''sa'' ex_config
        ([sns_record ''{}''] @ JDict [(''EventSource'', JStr ''aws:kinesis'')] # [sns_record ''ALERT''])
       = handler_loop ex_env ''us-east-1'' ''sa'' ex_config
           ([sns_record ''{}''] @ [sns_record ''ALERT''])"
proof -
  have h1: "dict_get (JDict [(''EventSource'', JStr ''aws:kinesis'')]) ''Sns'' JNull = Inr JNull"
    by (simp add: dict_get_def)
  have h2: "\<not> truthy JNull" by simp
  from handler_loop_skips_record_without_sns [OF h1 h2, of ex_env "''us-east-1''" "''sa''"
      ex_config "[sns_record ''{}'']" "[sns_record ''ALERT'']"]
  have c: "handler_loop ex_env ''us-east-1'' ''sa'' ex_config
        ([sns_record ''{}''] @ JDict [(''EventSource'', JStr ''aws:kinesis'')] # [sns_record ''ALERT''])
       = handler_loop ex_env ''us-east-1'' ''sa'' ex_config
           ([sns_record ''{}''] @ [sns_record ''ALERT''])"
    by (rule conjunct2)
  from h1 h2 c show ?thesis by (intro conjI)
qed

text \<open>
  C9: when the configuration loads, a record whose message has a \<^verbatim>\<open>default\<close> alert that is
  not a dict with \<^verbatim>\<open>metadata.rule_name\<close> and \<^verbatim>\<open>metadata.outputs\<close> makes the handler raise:
  the batch returns no results, whatever the other records are.
\<close>

theorem malformed_alert_aborts_batch:
  assumes "dict_get event ''Records'' (JList []) = Inr (JList records)"
    and "open_file env ''conf/outputs.json'' = Some content"
    and "json_loads env content = Some config"
    and "truthy config"
    and "JDict r \<in> set records"
    and "map_of r ''Sns'' = Some (JDict p)"
    and "map_of p ''Message'' = Some (JStr s)"
    and "json_loads env s = Some (JDict kv)"
    and "wf_json (JDict kv)"
    and "map_of kv ''default'' = Some alert"
    and "\<not> has_routing_metadata alert"
  shows "\<exists>e t. handler env event ctx = (Inl e, t)"
  by (rule handler_bad_alert [OF assms])

theorem malformed_alert_aborts_batch_witness:
  "dict_get (JDict [(''Records'', JList [sns_record ''ALERT'', sns_record ''NO-METADATA''])])
      ''Records'' (JList [])
     = Inr (JList [sns_record ''ALERT'', sns_record ''NO-METADATA''])
   \<and> open_file ex_env ''conf/outputs.json'' = Some ''CONFIG''
   \<and> json_loads ex_env ''CONFIG'' = Some ex_config
   \<and> truthy ex_config
   \<and> JDict [(''EventSource'', JStr ''aws:sns''), (''Sns'', JDict [(''Message'', JStr ''NO-METADATA'')])]
       \<in> set [sns_record ''ALERT'', sns_record ''NO-METADATA'']
   \<and> json_loads ex_env ''NO-METADATA'' = Some (JDict [(''default'', JDict [(''record'', JDict [])])])
   \<and> wf_json (JDict [(''default'', JDict [(''record'', JDict [])])])
   \<and> \<not> has_routing_metadata (JDict [(''record'', JDict [])])
   \<and> (\<exists>e t. handler ex_env
               (JDict [(''Records'', JList [sns_record ''ALERT'', sns_record ''NO-METADATA''])])
               ex_ctx = (Inl e, t))"
proof -
  have h1: "dict_get (JDict [(''Records'', JList [sns_record ''ALERT'', sns_record ''NO-METADATA''])])
      ''Records'' (JList [])
     = Inr (JList [sns_record ''ALERT'', sns_record ''NO-METADATA''])"
    by (simp add: dict_get_def)
  have h2: "open_file ex_env ''conf/outputs.json'' = Some ''CONFIG''"
    by (simp add: ex_env_def)
  have h3: "json_loads ex_env ''CONFIG'' = Some ex_config"
    by (simp add: ex_env_def)
  have h4: "truthy ex_config"
    by (simp add: ex_config_def ex_services_def)
  have h5: "JDict [(''EventSource'', JStr ''aws:sns''), (''Sns'', JDict [(''Message'', JStr ''NO-METADATA'')])]
       \<in> set [sns_record ''ALERT'', sns_record ''NO-METADATA'']"
    by (simp add: sns_record_def)
  have h6: "map_of [(''EventSource'', JStr ''aws:sns''), (''Sns'', JDict [(''Message'', JStr ''NO-METADATA'')])]
      ''Sns'' = Some (JDict [(''Message'', JStr ''NO-METADATA'')])"
    by simp
  have h7: "map_of [(''Message'', JStr ''NO-METADATA'')] ''Message'' = Some (JStr ''NO-METADATA'')"
    by simp
  have h8: "json_loads ex_env ''NO-METADATA'' = Some (JDict [(''default'', JDict [(''record'', JDict [])])])"
    by (simp add: ex_env_def)
  have h9: "wf_json (JDict [(''default'', JDict [(''record'', JDict [])])])"
    by simp
  have h10: "map_of [(''default'', JDict [(''record'', JDict [])])] ''default''
      = Some (JDict [(''record'', JDict [])])"
    by simp
  have h11: "\<not> has_routing_metadata (JDict [(''record'', JDict [])])"
    by (simp add: has_routing_metadata_def)
  from malformed_alert_aborts_batch [OF h1 h2 h3 h4 h5 h6 h7 h8 h9 h10 h11, of ex_ctx]
  have c: "\<exists>e t. handler ex_env
               (JDict [(''Records'', JList [sns_record ''ALERT'', sns_record ''NO-METADATA''])])
               ex_ctx = (Inl e, t)" .
  from h1 h2 h3 h4 h5 h8 h9 h11 c show ?thesis by (intro conjI)
qed

text \<open>
  C10: when the configuration file parses to a falsy value (\<^verbatim>\<open>{}\<close>, \<^verbatim>\<open>[]\<close>, \<^verbatim>\<open>null\<close>, \<^verbatim>\<open>0\<close>,
  \<^verbatim>\<open>""\<close>, \<^verbatim>\<open>false\<close>), the handler returns \<^verbatim>\<open>None\<close> after the line that counts the records:
  no record is processed. It returns the same when the content does not parse.
\<close>

theorem falsy_config_aborts_batch:
  assumes "dict_get event ''Records'' (JList []) = Inr records"
    and "py_len records = Inr n"
    and "open_file env ''conf/outputs.json'' = Some content"
    and "json_loads env content = Some config"
    and "\<not> truthy config"
  shows "handler env event ctx = (Inr None, [LogInfoRunning n])
       \<and> fst (handler (env \<lparr> json_loads := \<lambda>s. if s = content then None else json_loads env s \<rparr>) event ctx)
           = Inr None"
proof -
  let ?env = "env \<lparr> json_loads := \<lambda>s. if s = content then None else json_loads env s \<rparr>"
  have o: "open_file ?env ''conf/outputs.json'' = Some content"
    using assms(3) by simp
  have l: "json_loads ?env content = None"
    by simp
  from handler_parse_failure [OF assms(1,2) o l, of ctx]
  have "fst (handler ?env event ctx) = Inr None"
    by simp
  with handler_falsy_config [OF assms, of ctx] show ?thesis by simp
qed

theorem falsy_config_aborts_batch_witness:
  "dict_get (JDict [(''Records'', JList [sns_record ''ALERT''])]) ''Records'' (JList [])
     = Inr (JList [sns_record ''ALERT''])
   \<and> py_len (JList [sns_record ''ALERT'']) = Inr 1
   \<and> open_file (ex_env \<lparr> open_file := \<lambda>path. Some ''{}'' \<rparr>) ''conf/outputs.json'' = Some ''{}''
   \<and> json_loads (ex_env \<lparr> open_file := \<lambda>path. Some ''{}'' \<rparr>) ''{}'' = Some (JDict [])
   \<and> \<not> truthy (JDict [])
   \<and> handler (ex_env \<lparr> open_file := \<lambda>path. Some ''{}'' \<rparr>)
        (JDict [(''Records'', JList [sns_record ''ALERT''])]) ex_ctx
       = (Inr None, [LogInfoRunning 1])"
proof -
  have h1: "dict_get (JDict [(''Records'', JList [sns_record ''ALERT''])]) ''Records'' (JList [])
     = Inr (JList [sns_record ''ALERT''])"
    by (simp add: dict_get_def)
  have h2: "py_len (JList [sns_record ''ALERT'']) = Inr 1"
    by (simp add: py_len_def)
  have h3: "open_file (ex_env \<lparr> open_file := \<lambda>path. Some ''{}'' \<rparr>) ''conf/outputs.json'' = Some ''{}''"
    by simp
  have h4: "json_loads (ex_env \<lparr> open_file := \<lambda>path. Some ''{}'' \<rparr>) ''{}'' = Some (JDict [])"
    by (simp add: ex_env_def)
  have h5: "\<not> truthy (JDict [])" by simp
  from falsy_config_aborts_batch [OF h1 h2 h3 h4 h5, of ex_ctx]
  have c: "handler (ex_env \<lparr> open_file := \<lambda>path. Some ''{}'' \<rparr>)
        (JDict [(''Records'', JList [sns_record ''ALERT''])]) ex_ctx
       = (Inr None, [LogInfoRunning 1])"
    by (rule conjunct1)
  from h1 h2 h3 h4 h5 c show ?thesis by (intro conjI)
qed

end
